theory Spec2Isabelle
  imports Complex_Main
begin

section \<open>The SSD training driver (train.py)\<close>

text \<open>
  A shallow embedding of the training script. The tensor computation (forward pass, loss,
  back-propagation, optimiser step) is an external collaborator of the script: the two loss
  scalars it hands back at each iteration are parameters of the model, as real numbers, and the
  weight initialiser's random draw is a parameter too. Everything the script itself decides
  (epoch boundaries, the decay milestones, the loss counters, the checkpoints, the plot points)
  is modelled as the code has it.
\<close>

subsection \<open>Settings\<close>

text \<open>The parsed command line: one field per option of the parser (lines 20-35).\<close>

record args =
  version :: string
  basenet :: string
  jaccard_threshold :: real
  batch_size :: int
  num_workers :: int
  iterations :: int
  cuda :: bool
  lr :: real
  momentum :: real
  weight_decay :: real
  gamma :: real
  log_iters :: bool
  visdom :: bool
  save_folder :: string

text \<open>The parser's defaults.\<close>

definition default_args :: args where
  "default_args =
     \<lparr>version = ''v2'', basenet = ''vgg16_reducedfc.pth'', jaccard_threshold = 0.5,
      batch_size = 1, num_workers = 4, iterations = 120000, cuda = False, lr = 0.001,
      momentum = 0.9, weight_decay = 0.0005, gamma = 0.1, log_iters = True, visdom = True,
      save_folder = ''weights/''\<rparr>"


definition max_iter :: nat where
  "max_iter = 120000"

definition stepvalues :: "nat list" where
  "stepvalues = [80000, 100000, 120000]"

text \<open>The faults the script can raise in the parts modelled here.\<close>

datatype error = ZeroDivisionError | StopIteration | UnboundLocalError | AttributeError

subsection \<open>The loss function object\<close>



subsection \<open>The optimiser and the learning-rate schedule\<close>

text \<open>
  A parameter group is a dictionary; only its numeric hyper-parameters are modelled.
  \<open>adjust_learning_rate\<close> (lines 171-178) computes \<open>args.lr * gamma ** step\<close> once and stores
  it under the key \<open>'lr'\<close> of every group.
\<close>

type_synonym param_group = "string \<rightharpoonup> real"

record optimizer =
  param_groups :: "param_group list"

definition adjust_learning_rate :: "args \<Rightarrow> optimizer \<Rightarrow> real \<Rightarrow> nat \<Rightarrow> optimizer" where
  "adjust_learning_rate a opt g step =
     (let lr' = lr a * g ^ step
      in opt\<lparr>param_groups := map (\<lambda>param_group. param_group(''lr'' \<mapsto> lr')) (param_groups opt)\<rparr>)"

subsection \<open>The training loop\<close>

text \<open>
  The variables of \<open>train\<close> (lines 91-101) and the effects it has on the world: the optimiser
  (a module-level object the loop mutates), the batch iterator (the number of batches it can
  still yield; \<open>None\<close> while the name is unbound), and one log per kind of effect: the
  iterations at which an iterator was created, the calls of \<open>adjust_learning_rate\<close> (iteration
  and step index), the points appended to the plot (epoch and the six values), the parameter
  checkpoints (iteration and path), the full-model saves (path), and the number of optimiser
  steps taken.
\<close>

record train_state =
  loc_loss :: real
  conf_loss :: real
  cum_loc_loss :: real
  cum_conf_loss :: real
  epoch :: nat
  step_index :: nat
  batch_iterator :: "nat option"
  optimizer :: optimizer
  optimizer_steps :: nat
  created :: "nat list"
  lr_log :: "(nat \<times> nat) list"
  viz_log :: "(nat \<times> real list) list"
  saved :: "(nat \<times> string) list"
  model_saved :: "string list"

definition init_state :: "optimizer \<Rightarrow> train_state" where
  "init_state opt =
     \<lparr>loc_loss = 0, conf_loss = 0, cum_loc_loss = 0, cum_conf_loss = 0, epoch = 0,
      step_index = 0, batch_iterator = None, optimizer = opt, optimizer_steps = 0,
      created = [], lr_log = [], viz_log = [], saved = [], model_saved = []\<rparr>"

text \<open>\<open>repr\<close> of a non-negative integer: its decimal digits.\<close>

definition digit_char :: "nat \<Rightarrow> char" where
  "digit_char d = ''0123456789'' ! d"

fun repr :: "nat \<Rightarrow> string" where
  "repr n = (if n < 10 then [digit_char n] else repr (n div 10) @ [digit_char (n mod 10)])"

declare repr.simps [simp del]

text \<open>\<open>'weights/ssd_iter_new' + repr(iteration) + '.pth'\<close> (lines 166-167).\<close>

definition checkpoint_path :: "nat \<Rightarrow> string" where
  "checkpoint_path iteration = ''weights/ssd_iter_new'' @ repr iteration @ ''.pth''"

text \<open>\<open>epoch_size = len(dataset) // args.batch_size\<close> (line 99), for a non-zero batch size;
  \<open>div\<close> on \<open>int\<close> is Python's floor division.\<close>

definition epoch_size :: "args \<Rightarrow> nat \<Rightarrow> int" where
  "epoch_size a n = int n div batch_size a"

text \<open>
  Modelled from the spec: the data loader is an external collaborator that yields one full pass
  over the dataset per iterator. With \<open>n\<close> items in batches of \<open>bs \<ge> 1\<close> and no batch dropped
  (the call on line 119 leaves \<open>drop_last\<close> at its default) that is \<open>\<lceil>n / bs\<rceil>\<close>
  batches. The theorems below use it for \<open>bs \<ge> 1\<close> only.
\<close>

definition DataLoader_batches :: "nat \<Rightarrow> int \<Rightarrow> nat" where
  "DataLoader_batches n bs = nat ((int n + bs - 1) div bs)"

text \<open>
  The body of \<open>if iteration % epoch_size == 0\<close> (lines 118-140): a fresh iterator; the milestone
  test; the epoch counters rolled into the cumulative ones; the plot point; the reset.
\<close>

definition epoch_boundary :: "args \<Rightarrow> nat \<Rightarrow> nat \<Rightarrow> train_state \<Rightarrow> train_state" where
  "epoch_boundary a nb iteration s =
     (let s1 = s\<lparr>batch_iterator := Some nb, created := created s @ [iteration]\<rparr>;
          s2 = (if iteration \<in> set stepvalues
                then s1\<lparr>step_index := step_index s1 + 1,
                        optimizer := adjust_learning_rate a (optimizer s1) (gamma a) (step_index s1 + 1),
                        lr_log := lr_log s1 @ [(iteration, step_index s1 + 1)]\<rparr>
                else s1);
          s3 = s2\<lparr>cum_loc_loss := cum_loc_loss s2 + loc_loss s2,
                  cum_conf_loss := cum_conf_loss s2 + conf_loss s2,
                  epoch := epoch s2 + 1\<rparr>;
          s4 = (if visdom a
                then s3\<lparr>viz_log := viz_log s3 @
                       [(epoch s3, [loc_loss s3, conf_loss s3, loc_loss s3 + conf_loss s3,
                                    cum_loc_loss s3, cum_conf_loss s3,
                                    cum_loc_loss s3 + cum_conf_loss s3])]\<rparr>
                else s3)
      in s4\<lparr>loc_loss := 0, conf_loss := 0\<rparr>)"

text \<open>
  The rest of the loop body once \<open>next(batch_iterator)\<close> has returned a batch (lines 143-167):
  the iterator is one batch shorter, the optimiser takes a step, the two losses of this
  iteration are added to the epoch counters, and every 5000th iteration writes a parameter
  checkpoint. The timer and the progress line (lines 162-164) are not modelled.
\<close>

definition batch_step ::
  "(nat \<Rightarrow> real) \<Rightarrow> (nat \<Rightarrow> real) \<Rightarrow> nat \<Rightarrow> nat \<Rightarrow> train_state \<Rightarrow> train_state" where
  "batch_step loss_l loss_c iteration remaining s =
     (let s1 = s\<lparr>batch_iterator := Some (remaining - 1)\<rparr>;
          s2 = s1\<lparr>optimizer_steps := optimizer_steps s1 + 1\<rparr>;
          s3 = s2\<lparr>loc_loss := loc_loss s2 + loss_l iteration,
                  conf_loss := conf_loss s2 + loss_c iteration\<rparr>
      in if iteration mod 5000 = 0
         then s3\<lparr>saved := saved s3 @ [(iteration, checkpoint_path iteration)]\<rparr>
         else s3)"

text \<open>
  One pass through the loop body. \<open>iteration % epoch_size\<close> raises for a zero epoch size;
  \<open>next\<close> raises \<open>StopIteration\<close> on an exhausted iterator.
\<close>

definition train_iteration ::
  "args \<Rightarrow> int \<Rightarrow> nat \<Rightarrow> (nat \<Rightarrow> real) \<Rightarrow> (nat \<Rightarrow> real) \<Rightarrow> nat \<Rightarrow> train_state
     \<Rightarrow> error + train_state" where
  "train_iteration a esize nb loss_l loss_c iteration s =
     (if esize = 0 then Inl ZeroDivisionError
      else
        let s1 = (if int iteration mod esize = 0 then epoch_boundary a nb iteration s else s)
        in case batch_iterator s1 of
             None \<Rightarrow> Inl UnboundLocalError
           | Some remaining \<Rightarrow>
               if remaining = 0 then Inl StopIteration
               else Inr (batch_step loss_l loss_c iteration remaining s1))"

text \<open>A \<open>for\<close> loop over a list of indices whose body may raise.\<close>

fun for_range :: "(nat \<Rightarrow> 's \<Rightarrow> error + 's) \<Rightarrow> nat list \<Rightarrow> 's \<Rightarrow> error + 's" where
  "for_range body [] s = Inr s"
| "for_range body (i # is) s =
     (case body i s of Inl e \<Rightarrow> Inl e | Inr s' \<Rightarrow> for_range body is s')"

text \<open>The first \<open>m\<close> iterations of \<open>for iteration in range(max_iter)\<close>.\<close>

definition train_loop ::
  "args \<Rightarrow> int \<Rightarrow> nat \<Rightarrow> (nat \<Rightarrow> real) \<Rightarrow> (nat \<Rightarrow> real) \<Rightarrow> nat \<Rightarrow> train_state
     \<Rightarrow> error + train_state" where
  "train_loop a esize nb loss_l loss_c m s =
     for_range (train_iteration a esize nb loss_l loss_c) [0..<m] s"

text \<open>
  \<open>train\<close> (lines 88-168) on a dataset of \<open>n\<close> items, with the optimiser \<open>opt\<close> built at module
  level and the losses \<open>loss_l i\<close>, \<open>loss_c i\<close> that the criterion returns at iteration \<open>i\<close>.
  The final \<open>torch.save(net, args.save_folder + '' + args.version + '.pth')\<close> runs only when the
  loop has ended without a fault.
\<close>

definition train ::
  "args \<Rightarrow> nat \<Rightarrow> optimizer \<Rightarrow> (nat \<Rightarrow> real) \<Rightarrow> (nat \<Rightarrow> real) \<Rightarrow> error + train_state" where
  "train a n opt loss_l loss_c =
     (if batch_size a = 0 then Inl ZeroDivisionError
      else
        case train_loop a (epoch_size a n) (DataLoader_batches n (batch_size a)) loss_l loss_c
               max_iter (init_state opt) of
          Inl e \<Rightarrow> Inl e
        | Inr s \<Rightarrow>
            Inr (s\<lparr>model_saved := model_saved s @ [save_folder a @ '''' @ version a @ ''.pth'']\<rparr>))"

subsection \<open>Weight initialisation\<close>

text \<open>
  A tensor is its shape and its values. A module is either a \<open>Conv2d\<close> layer, with a weight
  and an optional bias, or any other module, with a name, parameters of its own and children.
\<close>

record tensor =
  shape :: "nat list"
  data :: "real list"

datatype module = Conv2d tensor "tensor option" | Module string "tensor list" "module list"

text \<open>
  \<open>xavier\<close> (lines 68-69) hands the tensor to the library's \<open>xavier_uniform\<close>, which overwrites
  its values with a random draw. The draw is a parameter of the model: a function of the
  generator's state and of the tensor's shape that returns the values and the next state.
\<close>

definition xavier :: "('g \<Rightarrow> nat list \<Rightarrow> real list \<times> 'g) \<Rightarrow> tensor \<Rightarrow> 'g \<Rightarrow> tensor \<times> 'g" where
  "xavier xavier_uniform param g =
     (case xavier_uniform g (shape param) of (d, g') \<Rightarrow> (param\<lparr>data := d\<rparr>, g'))"

text \<open>
  Modelled from the spec: \<open>tensor.zero_()\<close> of the tensor library sets every value of the
  tensor to zero, in place.
\<close>

definition zero_inplace :: "tensor \<Rightarrow> tensor" where
  "zero_inplace t = t\<lparr>data := map (\<lambda>x. 0) (data t)\<rparr>"

text \<open>
  \<open>weights_init\<close> (lines 72-75): for a \<open>Conv2d\<close> the weight is drawn first, then the bias is
  zeroed; \<open>m.bias.data\<close> raises \<open>AttributeError\<close> for a layer built without bias. Any other
  module is left as it is.
\<close>

fun weights_init ::
  "('g \<Rightarrow> nat list \<Rightarrow> real list \<times> 'g) \<Rightarrow> module \<Rightarrow> 'g \<Rightarrow> error + module \<times> 'g" where
  "weights_init xavier_uniform (Conv2d weight bias) g =
     (case xavier xavier_uniform weight g of
        (weight', g') \<Rightarrow>
          (case bias of
             None \<Rightarrow> Inl AttributeError
           | Some b \<Rightarrow> Inr (Conv2d weight' (Some (zero_inplace b)), g')))"
| "weights_init xavier_uniform (Module name params children) g =
     Inr (Module name params children, g)"

text \<open>
  Modelled from the spec: the generic traversal \<open>module.apply(fn)\<close> of the library calls itself
  on every child, in order, and then calls \<open>fn\<close> on the module.
\<close>

fun apply_module ::
  "(module \<Rightarrow> 'g \<Rightarrow> error + module \<times> 'g) \<Rightarrow> module \<Rightarrow> 'g \<Rightarrow> error + module \<times> 'g"
and apply_children ::
  "(module \<Rightarrow> 'g \<Rightarrow> error + module \<times> 'g) \<Rightarrow> module list \<Rightarrow> 'g \<Rightarrow> error + module list \<times> 'g"
where
  "apply_module fn (Conv2d weight bias) g = fn (Conv2d weight bias) g"
| "apply_module fn (Module name params children) g =
     (case apply_children fn children g of
        Inl e \<Rightarrow> Inl e
      | Inr (children', g') \<Rightarrow> fn (Module name params children') g')"
| "apply_children fn [] g = Inr ([], g)"
| "apply_children fn (c # cs) g =
     (case apply_module fn c g of
        Inl e \<Rightarrow> Inl e
      | Inr (c', g') \<Rightarrow>
          (case apply_children fn cs g' of
             Inl e \<Rightarrow> Inl e
           | Inr (cs', g'') \<Rightarrow> Inr (c' # cs', g'')))"

text \<open>
  The detector: the base network and the three heads. Lines 79-81 apply \<open>weights_init\<close> to
  \<open>extras\<close>, \<open>loc\<close> and \<open>conf\<close>, in this order.
\<close>

record ssd =
  vgg :: module
  extras :: module
  loc :: module
  conf :: module

definition initialize_weights ::
  "('g \<Rightarrow> nat list \<Rightarrow> real list \<times> 'g) \<Rightarrow> ssd \<Rightarrow> 'g \<Rightarrow> error + ssd \<times> 'g" where
  "initialize_weights xavier_uniform net g =
     (case apply_module (weights_init xavier_uniform) (extras net) g of
        Inl e \<Rightarrow> Inl e
      | Inr (extras', g1) \<Rightarrow>
          (case apply_module (weights_init xavier_uniform) (loc net) g1 of
             Inl e \<Rightarrow> Inl e
           | Inr (loc', g2) \<Rightarrow>
               (case apply_module (weights_init xavier_uniform) (conf net) g2 of
                  Inl e \<Rightarrow> Inl e
                | Inr (conf', g3) \<Rightarrow>
                    Inr (net\<lparr>extras := extras', loc := loc', conf := conf'\<rparr>, g3))))"

text \<open>
  What the proofs observe: the \<open>Conv2d\<close> layers of a module in traversal order; the module with
  the tensors of its \<open>Conv2d\<close> layers blanked; the draws made for a list of shapes, one after the
  other; and the relation between the layers before and after: same weight and bias shapes,
  the new weights are the successive draws for the old shapes, every new bias is all zero.
\<close>

fun convs :: "module \<Rightarrow> (tensor \<times> tensor option) list" where
  "convs (Conv2d weight bias) = [(weight, bias)]"
| "convs (Module name params children) = concat (map convs children)"

fun skeleton :: "module \<Rightarrow> module" where
  "skeleton (Conv2d weight bias) = Conv2d \<lparr>shape = [], data = []\<rparr> None"
| "skeleton (Module name params children) = Module name params (map skeleton children)"

fun draws ::
  "('g \<Rightarrow> nat list \<Rightarrow> real list \<times> 'g) \<Rightarrow> 'g \<Rightarrow> nat list list \<Rightarrow> real list list \<times> 'g" where
  "draws xavier_uniform g [] = ([], g)"
| "draws xavier_uniform g (sh # shs) =
     (case xavier_uniform g sh of
        (d, g') \<Rightarrow> (case draws xavier_uniform g' shs of (ds, g'') \<Rightarrow> (d # ds, g'')))"

definition zero_bias :: "tensor \<times> tensor option \<Rightarrow> bool" where
  "zero_bias c = (case snd c of None \<Rightarrow> False | Some b \<Rightarrow> list_all (\<lambda>x. x = 0) (data b))"

definition has_bias :: "tensor \<times> tensor option \<Rightarrow> bool" where
  "has_bias c = (snd c \<noteq> None)"

definition head_convs :: "ssd \<Rightarrow> (tensor \<times> tensor option) list" where
  "head_convs net = convs (extras net) @ convs (loc net) @ convs (conf net)"

definition reinitialized ::
  "('g \<Rightarrow> nat list \<Rightarrow> real list \<times> 'g) \<Rightarrow> 'g \<Rightarrow> (tensor \<times> tensor option) list
     \<Rightarrow> (tensor \<times> tensor option) list \<Rightarrow> 'g \<Rightarrow> bool" where
  "reinitialized xu g old new g' \<longleftrightarrow>
     map (shape \<circ> fst) new = map (shape \<circ> fst) old \<and>
     map (map_option shape \<circ> snd) new = map (map_option shape \<circ> snd) old \<and>
     (map (data \<circ> fst) new, g') = draws xu g (map (shape \<circ> fst) old) \<and>
     list_all zero_bias new"

subsection \<open>Closed forms used in the proofs\<close>

text \<open>
  For an epoch size \<open>E \<ge> 1\<close>: the epoch boundaries, the milestones that fall on a boundary
  and the checkpoint iterations below \<open>m\<close>; the plot point of the boundary at iteration \<open>j\<close>;
  and the state of the loop once iteration \<open>i\<close> has run.
\<close>

definition boundaries :: "nat \<Rightarrow> nat \<Rightarrow> nat list" where
  "boundaries E m = filter (\<lambda>j. j mod E = 0) [0..<m]"

definition milestones :: "nat \<Rightarrow> nat \<Rightarrow> nat list" where
  "milestones E m = filter (\<lambda>j. j mod E = 0 \<and> j \<in> set stepvalues) [0..<m]"

definition checkpoints :: "nat \<Rightarrow> nat list" where
  "checkpoints m = filter (\<lambda>j. j mod 5000 = 0) [0..<m]"

definition viz_point :: "nat \<Rightarrow> (nat \<Rightarrow> real) \<Rightarrow> (nat \<Rightarrow> real) \<Rightarrow> nat \<Rightarrow> nat \<times> real list" where
  "viz_point E ll lc j =
     (Suc (j div E),
      [sum ll {j - E..<j}, sum lc {j - E..<j}, sum ll {j - E..<j} + sum lc {j - E..<j},
       sum ll {..<j}, sum lc {..<j}, sum ll {..<j} + sum lc {..<j}])"

definition state_after ::
  "args \<Rightarrow> nat \<Rightarrow> nat \<Rightarrow> (nat \<Rightarrow> real) \<Rightarrow> (nat \<Rightarrow> real) \<Rightarrow> optimizer \<Rightarrow> nat \<Rightarrow> train_state" where
  "state_after a E nb ll lc opt i =
     \<lparr>loc_loss = sum ll {(i div E) * E..<Suc i}, conf_loss = sum lc {(i div E) * E..<Suc i},
      cum_loc_loss = sum ll {..<(i div E) * E}, cum_conf_loss = sum lc {..<(i div E) * E},
      epoch = Suc (i div E),
      step_index = length (milestones E (Suc i)),
      batch_iterator = Some (nb - Suc (i mod E)),
      optimizer = (if milestones E (Suc i) = [] then opt
                   else adjust_learning_rate a opt (gamma a) (length (milestones E (Suc i)))),
      optimizer_steps = Suc i,
      created = boundaries E (Suc i),
      lr_log = zip (milestones E (Suc i)) [1..<Suc (length (milestones E (Suc i)))],
      viz_log = (if visdom a then map (viz_point E ll lc) (boundaries E (Suc i)) else []),
      saved = map (\<lambda>j. (j, checkpoint_path j)) (checkpoints (Suc i)),
      model_saved = []\<rparr>"

section \<open>Properties\<close>

subsection \<open>The loop in closed form\<close>

lemma boundaries_Suc:
  "boundaries E (Suc m) = (if m mod E = 0 then boundaries E m @ [m] else boundaries E m)"
  by (simp add: boundaries_def)

lemma milestones_Suc:
  "milestones E (Suc m) =
     (if m mod E = 0 \<and> m \<in> set stepvalues then milestones E m @ [m] else milestones E m)"
  by (simp add: milestones_def)

lemma checkpoints_Suc:
  "checkpoints (Suc m) = (if m mod 5000 = 0 then checkpoints m @ [m] else checkpoints m)"
  by (simp add: checkpoints_def)

lemma int_mod_eq_0_iff: "int i mod int E = 0 \<longleftrightarrow> i mod E = 0"
  by (metis of_nat_eq_0_iff of_nat_mod)

lemma train_iteration_nat:
  assumes "0 < E"
  shows "train_iteration a (int E) nb ll lc i s =
     (case batch_iterator (if i mod E = 0 then epoch_boundary a nb i s else s) of
        None \<Rightarrow> Inl UnboundLocalError
      | Some remaining \<Rightarrow>
          if remaining = 0 then Inl StopIteration
          else Inr (batch_step ll lc i remaining (if i mod E = 0 then epoch_boundary a nb i s else s)))"
proof -
  have "int E \<noteq> 0" using assms by simp
  then show ?thesis
    unfolding train_iteration_def Let_def int_mod_eq_0_iff by (simp only: if_False)
qed

lemma adjust_learning_rate_twice:
  "adjust_learning_rate a (adjust_learning_rate a opt g k) g k' = adjust_learning_rate a opt g k'"
  by (simp add: adjust_learning_rate_def Let_def comp_def)

lemma boundary_facts:
  assumes "0 < E" "Suc i mod E = 0"
  shows "Suc i div E = Suc (i div E)" and "(Suc i div E) * E = Suc i"
    and "(i div E) * E = Suc i - E" and "(i div E) * E \<le> Suc i"
proof -
  show d: "Suc i div E = Suc (i div E)" using assms by (simp add: div_Suc)
  show b: "(Suc i div E) * E = Suc i" using assms(2) by (auto simp: mod_eq_0_iff_dvd)
  from d b have "(i div E) * E + E = Suc i" by simp
  then show "(i div E) * E = Suc i - E" and "(i div E) * E \<le> Suc i" by linarith+
qed

lemma interior_facts:
  assumes "0 < E" "Suc i mod E \<noteq> 0"
  shows "Suc i div E = i div E" and "Suc i mod E = Suc (i mod E)"
  using assms by (simp_all add: div_Suc mod_Suc split: if_splits)

lemma first_iteration:
  assumes "0 < E" "E \<le> nb"
  shows "train_iteration a (int E) nb ll lc 0 (init_state opt) = Inr (state_after a E nb ll lc opt 0)"
  using assms
  by (simp add: train_iteration_nat epoch_boundary_def batch_step_def init_state_def
      state_after_def stepvalues_def viz_point_def Let_def boundaries_def milestones_def
      checkpoints_def)

lemma lr_log_snoc:
  "zip (xs @ [x]) [Suc 0..<Suc (Suc (length xs))] =
     zip xs [Suc 0..<Suc (length xs)] @ [(x, Suc (length xs))]"
proof -
  have "[Suc 0..<Suc (Suc (length xs))] = [Suc 0..<Suc (length xs)] @ [Suc (length xs)]"
    by simp
  then show ?thesis by (simp del: upt_Suc)
qed

lemma boundary_state:
  assumes E: "0 < E" and T: "Suc i mod E = 0"
  shows "epoch_boundary a nb (Suc i) (state_after a E nb ll lc opt i) =
    (state_after a E nb ll lc opt i)\<lparr>
       batch_iterator := Some nb,
       created := boundaries E (Suc (Suc i)),
       step_index := length (milestones E (Suc (Suc i))),
       optimizer := (if milestones E (Suc (Suc i)) = [] then opt
                   else adjust_learning_rate a opt (gamma a) (length (milestones E (Suc (Suc i))))),
       lr_log := zip (milestones E (Suc (Suc i))) [1..<Suc (length (milestones E (Suc (Suc i))))],
       cum_loc_loss := sum ll {..<Suc i}, cum_conf_loss := sum lc {..<Suc i},
       epoch := Suc (Suc i div E),
       viz_log := (if visdom a then map (viz_point E ll lc) (boundaries E (Suc (Suc i))) else []),
       loc_loss := 0, conf_loss := 0\<rparr>"
proof -
  note bf = boundary_facts [OF E T]
  have split_sum: "\<And>f::nat \<Rightarrow> real. sum f {..<i div E * E} + sum f {i div E * E..<Suc i} = sum f {..<Suc i}"
    using bf(4) by (metis sum.atLeastLessThan_concat le0 lessThan_atLeast0)
  have vp: "viz_point E ll lc (Suc i) = (Suc (Suc (i div E)),
      [sum ll {i div E * E..<Suc i}, sum lc {i div E * E..<Suc i},
       sum ll {i div E * E..<Suc i} + sum lc {i div E * E..<Suc i},
       sum ll {..<Suc i}, sum lc {..<Suc i}, sum ll {..<Suc i} + sum lc {..<Suc i}])"
    by (simp add: viz_point_def bf(1) bf(3) del: sum.op_ivl_Suc sum.lessThan_Suc)
  show ?thesis
    unfolding epoch_boundary_def Let_def
      boundaries_Suc [of E "Suc i"] milestones_Suc [of E "Suc i"]
    using T split_sum
    by (simp add: state_after_def vp bf(1) adjust_learning_rate_twice lr_log_snoc
        del: sum.op_ivl_Suc sum.lessThan_Suc upt_Suc)
qed

lemma next_iteration:
  assumes E: "0 < E" and nb: "E \<le> nb"
  shows "train_iteration a (int E) nb ll lc (Suc i) (state_after a E nb ll lc opt i)
           = Inr (state_after a E nb ll lc opt (Suc i))"
proof (cases "Suc i mod E = 0")
  case True
  note bf = boundary_facts [OF E True]
  have nb0: "nb \<noteq> 0" using E nb by simp
  have one: "\<And>f::nat \<Rightarrow> real. sum f {Suc i..<Suc (Suc i)} = f (Suc i)" by simp
  show ?thesis
    unfolding train_iteration_nat [OF E] boundary_state [OF E True]
    using True nb0
    by (simp add: batch_step_def Let_def state_after_def bf(2) one checkpoints_Suc [of "Suc i"]
        del: sum.op_ivl_Suc sum.lessThan_Suc upt_Suc)
next
  case False
  note nf = interior_facts [OF E False]
  have "Suc i mod E < E" using E by simp
  then have lt: "Suc (i mod E) < E" using nf(2) by simp
  then have rem: "nb - Suc (i mod E) \<noteq> 0" "nb - Suc (i mod E) - 1 = nb - Suc (Suc (i mod E))"
    using nb by simp_all
  have "(i div E) * E \<le> i" by simp
  then have bound: "(i div E) * E \<le> Suc i" by linarith
  have sums: "\<And>f::nat \<Rightarrow> real.
      sum f {i div E * E..<Suc (Suc i)} = sum f {i div E * E..<Suc i} + f (Suc i)"
    using bound by simp
  show ?thesis
    unfolding train_iteration_nat [OF E]
    using False rem
    by (simp add: batch_step_def Let_def state_after_def nf sums
        checkpoints_Suc [of "Suc i"] boundaries_Suc [of E "Suc i"] milestones_Suc [of E "Suc i"]
        del: sum.op_ivl_Suc sum.lessThan_Suc upt_Suc)
qed

lemma for_range_append:
  "for_range body (xs @ ys) s =
     (case for_range body xs s of Inl e \<Rightarrow> Inl e | Inr s' \<Rightarrow> for_range body ys s')"
  by (induction xs arbitrary: s) (auto split: sum.splits)

lemma train_loop_Suc:
  "train_loop a es nb ll lc (Suc m) s =
     (case train_loop a es nb ll lc m s of
        Inl e \<Rightarrow> Inl e
      | Inr s' \<Rightarrow> train_iteration a es nb ll lc m s')"
  by (simp add: train_loop_def for_range_append split: sum.splits)

lemma train_loop_closed_form:
  assumes "0 < E" "E \<le> nb"
  shows "train_loop a (int E) nb ll lc (Suc i) (init_state opt) = Inr (state_after a E nb ll lc opt i)"
proof (induction i)
  case 0
  show ?case
    using first_iteration [OF assms] by (simp add: train_loop_def)
next
  case (Suc i)
  show ?case
    by (subst train_loop_Suc) (simp only: Suc sum.case next_iteration [OF assms])
qed

subsection \<open>The learning-rate schedule\<close>




subsection \<open>The loss function's arguments\<close>


subsection \<open>Runs that end normally\<close>

lemma max_iter_Suc: "max_iter = Suc 119999"
  by (simp add: max_iter_def)

lemma normal_run_facts:
  assumes "1 \<le> epoch_size a n"
  shows "1 \<le> batch_size a"
    and "epoch_size a n = int (n div nat (batch_size a))"
    and "0 < n div nat (batch_size a)"
    and "n div nat (batch_size a) \<le> DataLoader_batches n (batch_size a)"
proof -
  show bs: "1 \<le> batch_size a"
  proof (rule ccontr)
    assume "\<not> 1 \<le> batch_size a"
    then consider "batch_size a = 0" | "batch_size a < 0" by linarith
    then have "int n div batch_size a \<le> 0"
    proof cases
      case 1
      then show ?thesis by simp
    next
      case 2
      then show ?thesis by (intro div_nonneg_neg_le0) simp_all
    qed
    with assms show False unfolding epoch_size_def by linarith
  qed
  then have nat_bs: "int (nat (batch_size a)) = batch_size a" by simp
  show es: "epoch_size a n = int (n div nat (batch_size a))"
    by (simp only: epoch_size_def zdiv_int nat_bs)
  with assms show "0 < n div nat (batch_size a)" by simp
  have "int n div batch_size a \<le> (int n + batch_size a - 1) div batch_size a"
    using bs by (intro zdiv_mono1) simp_all
  then have "nat (int n div batch_size a) \<le> DataLoader_batches n (batch_size a)"
    by (simp add: DataLoader_batches_def nat_mono)
  then show "n div nat (batch_size a) \<le> DataLoader_batches n (batch_size a)"
    using es by (simp add: epoch_size_def)
qed

lemma train_normal:
  assumes "1 \<le> epoch_size a n"
  shows "train a n opt ll lc =
    Inr ((state_after a (nat (epoch_size a n)) (DataLoader_batches n (batch_size a)) ll lc opt
            119999)\<lparr>model_saved := [save_folder a @ version a @ ''.pth'']\<rparr>)"
proof -
  note f = normal_run_facts [OF assms]
  have E: "nat (epoch_size a n) = n div nat (batch_size a)" using f(2) by simp
  have "train_loop a (epoch_size a n) (DataLoader_batches n (batch_size a)) ll lc max_iter
          (init_state opt)
        = Inr (state_after a (n div nat (batch_size a)) (DataLoader_batches n (batch_size a))
                 ll lc opt 119999)"
    unfolding max_iter_Suc f(2) by (rule train_loop_closed_form [OF f(3) f(4)])
  moreover have "batch_size a \<noteq> 0" using f(1) by simp
  ultimately show ?thesis
    by (simp add: train_def E state_after_def)
qed

lemma boundary_int:
  assumes "1 \<le> es"
  shows "int i mod es = 0 \<longleftrightarrow> i mod nat es = 0"
  using int_mod_eq_0_iff [of i "nat es"] assms by simp

subsection \<open>Epoch boundaries\<close>

text \<open>
  C4: for every epoch size of at least 1 the run ends normally, and the iterations at which a
  fresh batch iterator was created are, in order and once each, the iterations \<open>i\<close> of the loop
  with \<open>i mod epoch_size = 0\<close>: an iterator is created at iteration \<open>i\<close> if and only if
  \<open>i mod epoch_size = 0\<close>.
\<close>

theorem iterator_created_iff_epoch_boundary:
  assumes "1 \<le> epoch_size a n"
  shows "\<exists>s. train a n opt ll lc = Inr s \<and>
           created s = filter (\<lambda>i. int i mod epoch_size a n = 0) [0..<max_iter] \<and>
           (\<forall>i < max_iter. i \<in> set (created s) \<longleftrightarrow> int i mod epoch_size a n = 0)"
proof -
  have c: "boundaries (nat (epoch_size a n)) 120000 =
             filter (\<lambda>i. int i mod epoch_size a n = 0) [0..<max_iter]"
    unfolding boundaries_def max_iter_def boundary_int [OF assms] ..
  show ?thesis
    unfolding train_normal [OF assms]
    by (simp add: state_after_def c del: upt_Suc)
qed

theorem iterator_created_iff_epoch_boundary_witness:
  "1 \<le> epoch_size default_args 3 \<and>
   (\<exists>s. train default_args 3 \<lparr>param_groups = []\<rparr> (\<lambda>i. 0) (\<lambda>i. 0) = Inr s \<and>
        created s = filter (\<lambda>i. int i mod 3 = 0) [0..<max_iter])"
proof -
  have e: "epoch_size default_args 3 = 3" by (simp add: epoch_size_def default_args_def)
  then have h: "1 \<le> epoch_size default_args 3" by simp
  show ?thesis
    using iterator_created_iff_epoch_boundary [OF h, of "\<lparr>param_groups = []\<rparr>" "\<lambda>i. 0" "\<lambda>i. 0"] h
    unfolding e by blast
qed

subsection \<open>Checkpoints\<close>


lemma path_example: "checkpoint_path 5000 = ''weights/ssd_iter_new5000.pth''"
  by (simp add: checkpoint_path_def repr.simps digit_char_def)




subsection \<open>The iteration budget\<close>

lemma train_iteration_iterations:
  "train_iteration (a\<lparr>iterations := v\<rparr>) = train_iteration a"
  by (intro ext) (simp add: train_iteration_def epoch_boundary_def adjust_learning_rate_def Let_def)

text \<open>
  C10: the value of the option \<open>--iterations\<close> has no effect on \<open>train\<close>; a run that ends
  normally has taken exactly 120000 optimiser steps, one per iteration of the loop, whatever
  that value is.
\<close>

theorem iterations_option_ignored:
  "train (a\<lparr>iterations := v\<rparr>) n opt ll lc = train a n opt ll lc \<and>
   (1 \<le> epoch_size a n \<longrightarrow>
      (\<exists>s. train (a\<lparr>iterations := v\<rparr>) n opt ll lc = Inr s \<and> optimizer_steps s = 120000))"
proof -
  have eq: "train (a\<lparr>iterations := v\<rparr>) n opt ll lc = train a n opt ll lc"
    by (simp add: train_def train_loop_def train_iteration_iterations epoch_size_def
        split: sum.splits)
  have "\<exists>s. train a n opt ll lc = Inr s \<and> optimizer_steps s = 120000" if "1 \<le> epoch_size a n"
    unfolding train_normal [OF that] by (simp add: state_after_def)
  with eq show ?thesis by simp
qed

theorem iterations_option_ignored_witness:
  "1 \<le> epoch_size default_args 3 \<and>
   (\<exists>s. train (default_args\<lparr>iterations := 12\<rparr>) 3 \<lparr>param_groups = []\<rparr> (\<lambda>i. 0) (\<lambda>i. 0) = Inr s \<and>
        optimizer_steps s = 120000)"
proof -
  have h: "1 \<le> epoch_size default_args 3" by (simp add: epoch_size_def default_args_def)
  show ?thesis
    using iterations_option_ignored [where a = default_args and v = 12 and n = 3
        and opt = "\<lparr>param_groups = []\<rparr>" and ll = "\<lambda>i. 0" and lc = "\<lambda>i. 0"] h
    by blast
qed

subsection \<open>Exhaustion of the batch iterator\<close>

lemma train_zero_epoch_size:
  assumes "batch_size a \<noteq> 0" "epoch_size a n = 0"
  shows "train a n opt ll lc = Inl ZeroDivisionError"
proof -
  have "0 < max_iter" by (simp add: max_iter_def)
  then have "[0..<max_iter] = 0 # [Suc 0..<max_iter]"
    by (rule upt_conv_Cons)
  then show ?thesis
    using assms by (simp add: train_def train_loop_def train_iteration_def)
qed

text \<open>
  C6: for a batch size of at least 1 and a dataset of any length, \<open>train\<close> never ends in the
  \<open>StopIteration\<close> of \<open>next(batch_iterator)\<close>. When the dataset holds at least one full batch
  the run ends normally; otherwise (the empty dataset included) the epoch size is 0 and the
  run stops at iteration 0 in \<open>iteration % epoch_size\<close>, before any batch is fetched.
\<close>

theorem fetch_never_exhausts:
  assumes "1 \<le> batch_size a"
  shows "train a n opt ll lc \<noteq> Inl StopIteration \<and>
         (batch_size a \<le> int n \<longrightarrow> (\<exists>s. train a n opt ll lc = Inr s)) \<and>
         (int n < batch_size a \<longrightarrow> train a n opt ll lc = Inl ZeroDivisionError)"
proof (cases "batch_size a \<le> int n")
  case True
  then have "0 < int n div batch_size a"
    using pos_imp_zdiv_pos_iff [of "batch_size a" "int n"] assms by simp
  then have "1 \<le> epoch_size a n"
    unfolding epoch_size_def by linarith
  then show ?thesis using True by (simp add: train_normal)
next
  case False
  then have "epoch_size a n = 0"
    using assms by (simp add: epoch_size_def div_pos_pos_trivial)
  then have "train a n opt ll lc = Inl ZeroDivisionError"
    using assms by (intro train_zero_epoch_size) simp_all
  then show ?thesis using False by simp
qed

theorem fetch_never_exhausts_witness:
  "1 \<le> batch_size default_args \<and>
   train default_args 3 \<lparr>param_groups = []\<rparr> (\<lambda>i. 0) (\<lambda>i. 0) \<noteq> Inl StopIteration \<and>
   (\<exists>s. train default_args 3 \<lparr>param_groups = []\<rparr> (\<lambda>i. 0) (\<lambda>i. 0) = Inr s) \<and>
   train default_args 0 \<lparr>param_groups = []\<rparr> (\<lambda>i. 0) (\<lambda>i. 0) = Inl ZeroDivisionError"
proof -
  have h: "1 \<le> batch_size default_args" by (simp add: default_args_def)
  have b: "batch_size default_args \<le> int 3" "int 0 < batch_size default_args"
    by (simp_all add: default_args_def)
  show ?thesis
    using fetch_never_exhausts [OF h, of 3 "\<lparr>param_groups = []\<rparr>" "\<lambda>i. 0" "\<lambda>i. 0"]
      fetch_never_exhausts [OF h, of 0 "\<lparr>param_groups = []\<rparr>" "\<lambda>i. 0" "\<lambda>i. 0"] h b
    by blast
qed

subsection \<open>The plot points\<close>




subsection \<open>The loss counters\<close>

lemma epoch_sums:
  fixes f :: "nat \<Rightarrow> real"
  shows "(\<Sum>e<k. \<Sum>j = e * E..<Suc e * E. f j) = sum f {..<k * E}"
proof (induction k)
  case 0
  show ?case by simp
next
  case (Suc k)
  have "sum f {..<k * E} + sum f {k * E..<Suc k * E} = sum f {..<Suc k * E}"
    by (metis sum.atLeastLessThan_concat le0 lessThan_atLeast0 le_add2 mult_Suc)
  with Suc show ?case by simp
qed

lemma div_between:
  assumes "k * E \<le> i" "i < Suc k * E"
  shows "i div E = k"
  using assms by (intro div_nat_eqI) (simp_all add: mult.commute)

text \<open>
  C3: an epoch boundary adds the epoch counters to the cumulative counters and only then resets
  the epoch counters to zero. So while epoch \<open>k\<close> (counted from 0) is running, that is after
  the boundary at iteration \<open>k * E\<close> and up to the next one, the cumulative counters hold the
  sum of the losses of the \<open>k\<close> completed epochs and nothing of the running one; at the first
  boundary (\<open>k = 0\<close>) what was added is zero.
\<close>

theorem cumulative_counters_lag:
  assumes "1 \<le> epoch_size a n" and "E = nat (epoch_size a n)"
    and "k * E < m" and "m \<le> Suc k * E"
  shows "(\<exists>s. train_loop a (epoch_size a n) (DataLoader_batches n (batch_size a)) ll lc m
               (init_state opt) = Inr s \<and>
           cum_loc_loss s = (\<Sum>e<k. \<Sum>j = e * E..<Suc e * E. ll j) \<and>
           cum_conf_loss s = (\<Sum>e<k. \<Sum>j = e * E..<Suc e * E. lc j) \<and>
           loc_loss s = (\<Sum>j = k * E..<m. ll j) \<and>
           conf_loss s = (\<Sum>j = k * E..<m. lc j)) \<and>
         cum_loc_loss (epoch_boundary a nb i s0) = cum_loc_loss s0 + loc_loss s0 \<and>
         cum_conf_loss (epoch_boundary a nb i s0) = cum_conf_loss s0 + conf_loss s0 \<and>
         loc_loss (epoch_boundary a nb i s0) = 0 \<and> conf_loss (epoch_boundary a nb i s0) = 0"
proof -
  note f = normal_run_facts [OF assms(1)]
  have E: "E = n div nat (batch_size a)" using assms(2) f(2) by simp
  obtain i' where m: "m = Suc i'" using assms(3) by (cases m) auto
  have d: "i' div E = k" using assms(3,4) m by (intro div_between) simp_all
  have tl: "train_loop a (epoch_size a n) (DataLoader_batches n (batch_size a)) ll lc m
          (init_state opt)
        = Inr (state_after a E (DataLoader_batches n (batch_size a)) ll lc opt i')"
    unfolding m f(2) E by (rule train_loop_closed_form [OF f(3) f(4)])
  show ?thesis
    unfolding tl epoch_sums
    by (simp add: state_after_def d m epoch_boundary_def Let_def
        del: sum.op_ivl_Suc sum.lessThan_Suc)
qed

theorem cumulative_counters_lag_witness:
  "1 \<le> epoch_size default_args 3 \<and> (3::nat) = nat (epoch_size default_args 3) \<and>
   1 * 3 < (4::nat) \<and> (4::nat) \<le> Suc 1 * 3 \<and>
   (\<exists>s. train_loop default_args (epoch_size default_args 3)
          (DataLoader_batches 3 (batch_size default_args)) (\<lambda>i. 1) (\<lambda>i. 2) 4
          (init_state \<lparr>param_groups = []\<rparr>) = Inr s \<and>
        cum_loc_loss s = 3 \<and> cum_conf_loss s = 6 \<and> loc_loss s = 1 \<and> conf_loss s = 2)"
proof -
  have e: "epoch_size default_args 3 = 3" by (simp add: epoch_size_def default_args_def)
  then have h: "1 \<le> epoch_size default_args 3" "(3::nat) = nat (epoch_size default_args 3)"
    by simp_all
  have k: "1 * 3 < (4::nat)" "(4::nat) \<le> Suc 1 * 3" by simp_all
  have s: "(\<Sum>e<(1::nat). \<Sum>j = e * 3..<Suc e * 3. (1::real)) = 3"
    "(\<Sum>e<(1::nat). \<Sum>j = e * 3..<Suc e * 3. (2::real)) = 6"
    "(\<Sum>j = 1 * 3..<(4::nat). (1::real)) = 1" "(\<Sum>j = 1 * 3..<(4::nat). (2::real)) = 2"
    by simp_all
  show ?thesis
    using cumulative_counters_lag [OF h k, where ll = "\<lambda>i. 1" and lc = "\<lambda>i. 2"
        and opt = "\<lparr>param_groups = []\<rparr>"] h k
    unfolding s by blast
qed

subsection \<open>The decay milestones\<close>

lemma milestones_none:
  "milestones 3 120000 = []"
  by (auto simp: milestones_def stepvalues_def filter_empty_conv)

lemma milestones_every:
  "set (milestones 1 120000) = {80000, 100000}"
  by (auto simp: milestones_def stepvalues_def)

lemma train_normal_lr:
  assumes "1 \<le> epoch_size a n"
  shows "\<exists>s. train a n opt ll lc = Inr s \<and>
           lr_log s = zip (milestones (nat (epoch_size a n)) 120000)
                        [1..<Suc (length (milestones (nat (epoch_size a n)) 120000))] \<and>
           step_index s = length (milestones (nat (epoch_size a n)) 120000) \<and>
           optimizer s = (if milestones (nat (epoch_size a n)) 120000 = [] then opt
                          else adjust_learning_rate a opt (gamma a)
                                 (length (milestones (nat (epoch_size a n)) 120000)))"
  unfolding train_normal [OF assms]
  by (simp add: state_after_def del: upt_Suc)

text \<open>
  C1: the milestone test sits inside the epoch-boundary branch, and the loop stops before
  iteration 120000. With the default settings and a dataset of three items (epoch size 3) no
  milestone falls on a boundary: the run ends normally and the learning rate was never
  adjusted. With a dataset of one item (every iteration a boundary) the learning rate is
  adjusted at iterations 80000 and 100000 only.
\<close>

theorem lr_schedule_skipped:
  "(\<exists>s. train default_args 3 opt ll lc = Inr s \<and>
        lr_log s = [] \<and> step_index s = 0 \<and> optimizer s = opt) \<and>
   (\<exists>s. train default_args 1 opt ll lc = Inr s \<and> fst ` set (lr_log s) = {80000, 100000})"
proof -
  have e: "nat (epoch_size default_args 3) = 3" "nat (epoch_size default_args 1) = 1"
    by (simp_all add: epoch_size_def default_args_def)
  have h: "1 \<le> epoch_size default_args 3" "1 \<le> epoch_size default_args 1"
    by (simp_all add: epoch_size_def default_args_def)
  have z: "fst ` set (zip xs [1..<Suc (length xs)]) = set xs" for xs :: "nat list"
    by (metis diff_Suc_1 length_upt map_fst_zip set_map)
  have "\<exists>s. train default_args 3 opt ll lc = Inr s \<and>
        lr_log s = [] \<and> step_index s = 0 \<and> optimizer s = opt"
    using train_normal_lr [OF h(1), of opt ll lc] unfolding e milestones_none by simp
  moreover have "\<exists>s. train default_args 1 opt ll lc = Inr s \<and>
        fst ` set (lr_log s) = {80000, 100000}"
    using train_normal_lr [OF h(2), of opt ll lc] unfolding e
    by (metis z milestones_every)
  ultimately show ?thesis by blast
qed

subsection \<open>Weight initialisation\<close>

lemma draws_append:
  "draws xu g (xs @ ys) =
     (case draws xu g xs of (ds, g') \<Rightarrow> (case draws xu g' ys of (es, g'') \<Rightarrow> (ds @ es, g'')))"
  by (induction xs arbitrary: g) (auto split: prod.splits)

lemma reinitialized_Nil: "reinitialized xu g [] [] g"
  by (simp add: reinitialized_def)

lemma reinitialized_append:
  assumes "reinitialized xu g old1 new1 g1" "reinitialized xu g1 old2 new2 g2"
  shows "reinitialized xu g (old1 @ old2) (new1 @ new2) g2"
proof -
  from assms have d1: "draws xu g (map (shape \<circ> fst) old1) = (map (data \<circ> fst) new1, g1)"
    and d2: "draws xu g1 (map (shape \<circ> fst) old2) = (map (data \<circ> fst) new2, g2)"
    by (simp_all add: reinitialized_def)
  show ?thesis
    using assms by (simp add: reinitialized_def draws_append d1 d2)
qed

lemma weights_init_conv:
  assumes "weights_init xu (Conv2d w b) g = Inr (m', g')"
  shows "skeleton m' = skeleton (Conv2d w b) \<and> reinitialized xu g [(w, b)] (convs m') g'"
  using assms
  by (auto simp: xavier_def zero_inplace_def reinitialized_def zero_bias_def list_all_iff
      split: prod.splits option.splits)

lemma apply_children_weights_init:
  assumes "\<And>c g c' g'. c \<in> set cs \<Longrightarrow> apply_module (weights_init xu) c g = Inr (c', g') \<Longrightarrow>
             skeleton c' = skeleton c \<and> reinitialized xu g (convs c) (convs c') g'"
    and "apply_children (weights_init xu) cs g = Inr (cs', g')"
  shows "map skeleton cs' = map skeleton cs \<and>
         reinitialized xu g (concat (map convs cs)) (concat (map convs cs')) g'"
  using assms
proof (induction cs arbitrary: g cs' g')
  case Nil
  then show ?case by (simp add: reinitialized_Nil)
next
  case (Cons c cs)
  from Cons.prems(2) obtain c' g1 cs1
    where c: "apply_module (weights_init xu) c g = Inr (c', g1)"
      and cs: "apply_children (weights_init xu) cs g1 = Inr (cs1, g')"
      and eq: "cs' = c' # cs1"
    by (auto split: sum.splits prod.splits)
  have hd: "skeleton c' = skeleton c \<and> reinitialized xu g (convs c) (convs c') g1"
    using Cons.prems(1) [of c g c' g1] c by simp
  have tl: "map skeleton cs1 = map skeleton cs \<and>
            reinitialized xu g1 (concat (map convs cs)) (concat (map convs cs1)) g'"
    using Cons.IH [OF _ cs] Cons.prems(1) by simp
  from hd tl have "reinitialized xu g (convs c @ concat (map convs cs))
      (convs c' @ concat (map convs cs1)) g'"
    by (blast intro: reinitialized_append)
  with hd tl eq show ?case by simp
qed

lemma apply_module_weights_init:
  "apply_module (weights_init xu) m g = Inr (m', g') \<Longrightarrow>
     skeleton m' = skeleton m \<and> reinitialized xu g (convs m) (convs m') g'"
proof (induction m arbitrary: g m' g')
  case (Conv2d w b)
  then show ?case using weights_init_conv [of xu w b g m' g'] by simp
next
  case (Module name params children)
  from Module.prems obtain cs' where
    cs: "apply_children (weights_init xu) children g = Inr (cs', g')"
    and m': "m' = Module name params cs'"
    by (auto split: sum.splits prod.splits)
  have "map skeleton cs' = map skeleton children \<and>
        reinitialized xu g (concat (map convs children)) (concat (map convs cs')) g'"
    using Module.IH cs by (intro apply_children_weights_init) auto
  then show ?case using m' by simp
qed

lemma apply_children_returns:
  assumes "\<And>c g. c \<in> set cs \<Longrightarrow> list_all has_bias (convs c) \<Longrightarrow>
             \<exists>r. apply_module (weights_init xu) c g = Inr r"
    and "list_all has_bias (concat (map convs cs))"
  shows "\<exists>r. apply_children (weights_init xu) cs g = Inr r"
  using assms
proof (induction cs arbitrary: g)
  case Nil
  then show ?case by simp
next
  case (Cons c cs)
  from Cons.prems(2) have hb: "list_all has_bias (convs c)" by simp
  have "\<exists>r. apply_module (weights_init xu) c g = Inr r"
    using Cons.prems(1) [of c g] hb by simp
  then obtain c' g1 where c: "apply_module (weights_init xu) c g = Inr (c', g1)"
    by auto
  from Cons.prems have "\<exists>r. apply_children (weights_init xu) cs g1 = Inr r"
    by (intro Cons.IH) auto
  then show ?case using c by auto
qed

lemma apply_module_returns:
  "list_all has_bias (convs m) \<Longrightarrow> \<exists>r. apply_module (weights_init xu) m g = Inr r"
proof (induction m arbitrary: g)
  case (Conv2d w b)
  then show ?case by (auto simp: has_bias_def split: prod.splits)
next
  case (Module name params children)
  have "\<exists>r. apply_children (weights_init xu) children g = Inr r"
    using Module by (intro apply_children_returns) auto
  then show ?case by auto
qed

text \<open>
  C7: when every \<open>Conv2d\<close> layer of the three heads has a bias, the initialisation returns, and
  afterwards every such layer has an all-zero bias and a weight whose values are a draw of the
  initialiser for its shape (the draws are made in traversal order from the generator's state
  and the shapes alone, so no previous value of any tensor enters them); shapes are kept, the
  base network is untouched, and every module that is not a \<open>Conv2d\<close> layer keeps its name, its
  parameters and its children's structure.
\<close>

theorem weights_init_heads:
  assumes "list_all has_bias (head_convs net)"
  shows "\<exists>net' g'. initialize_weights xu net g = Inr (net', g') \<and>
           vgg net' = vgg net \<and>
           skeleton (extras net') = skeleton (extras net) \<and>
           skeleton (loc net') = skeleton (loc net) \<and>
           skeleton (conf net') = skeleton (conf net) \<and>
           reinitialized xu g (head_convs net) (head_convs net') g'"
proof -
  from assms have b: "list_all has_bias (convs (extras net))" "list_all has_bias (convs (loc net))"
    "list_all has_bias (convs (conf net))"
    by (simp_all add: head_convs_def)
  obtain e1 g1 where e: "apply_module (weights_init xu) (extras net) g = Inr (e1, g1)"
    using apply_module_returns [OF b(1), of xu g] by auto
  obtain l1 g2 where l: "apply_module (weights_init xu) (loc net) g1 = Inr (l1, g2)"
    using apply_module_returns [OF b(2), of xu g1] by auto
  obtain c1 g3 where c: "apply_module (weights_init xu) (conf net) g2 = Inr (c1, g3)"
    using apply_module_returns [OF b(3), of xu g2] by auto
  note se = apply_module_weights_init [OF e] and sl = apply_module_weights_init [OF l]
    and sc = apply_module_weights_init [OF c]
  have "reinitialized xu g1 (convs (loc net) @ convs (conf net)) (convs l1 @ convs c1) g3"
    using sl sc by (blast intro: reinitialized_append)
  with se have r: "reinitialized xu g (convs (extras net) @ convs (loc net) @ convs (conf net))
             (convs e1 @ convs l1 @ convs c1) g3"
    by (blast intro: reinitialized_append)
  have "initialize_weights xu net g = Inr (net\<lparr>extras := e1, loc := l1, conf := c1\<rparr>, g3)"
    by (simp add: initialize_weights_def e l c)
  then show ?thesis
    using se sl sc r by (simp add: head_convs_def)
qed


theorem weights_init_heads_witness:
  "list_all has_bias
     (head_convs
        \<lparr>vgg = Conv2d \<lparr>shape = [1], data = [5]\<rparr> (Some \<lparr>shape = [1], data = [7]\<rparr>),
         extras = Module ''ModuleList'' []
                    [Conv2d \<lparr>shape = [2], data = [1, 2]\<rparr> (Some \<lparr>shape = [1], data = [3]\<rparr>),
                     Module ''ReLU'' [] []],
         loc = Module ''ModuleList'' [] [],
         conf = Conv2d \<lparr>shape = [1], data = [4]\<rparr> (Some \<lparr>shape = [2], data = [8, 9]\<rparr>)\<rparr>) \<and>
   initialize_weights (\<lambda>g sh. (replicate (prod_list sh) (real g), Suc g))
        \<lparr>vgg = Conv2d \<lparr>shape = [1], data = [5]\<rparr> (Some \<lparr>shape = [1], data = [7]\<rparr>),
         extras = Module ''ModuleList'' []
                    [Conv2d \<lparr>shape = [2], data = [1, 2]\<rparr> (Some \<lparr>shape = [1], data = [3]\<rparr>),
                     Module ''ReLU'' [] []],
         loc = Module ''ModuleList'' [] [],
         conf = Conv2d \<lparr>shape = [1], data = [4]\<rparr> (Some \<lparr>shape = [2], data = [8, 9]\<rparr>)\<rparr> 10
     = Inr (\<lparr>vgg = Conv2d \<lparr>shape = [1], data = [5]\<rparr> (Some \<lparr>shape = [1], data = [7]\<rparr>),
         extras = Module ''ModuleList'' []
                    [Conv2d \<lparr>shape = [2], data = [10, 10]\<rparr> (Some \<lparr>shape = [1], data = [0]\<rparr>),
                     Module ''ReLU'' [] []],
         loc = Module ''ModuleList'' [] [],
         conf = Conv2d \<lparr>shape = [1], data = [11]\<rparr> (Some \<lparr>shape = [2], data = [0, 0]\<rparr>)\<rparr>, 12)"
proof -
  let ?net = "\<lparr>vgg = Conv2d \<lparr>shape = [1], data = [5]\<rparr> (Some \<lparr>shape = [1], data = [7]\<rparr>),
         extras = Module ''ModuleList'' []
                    [Conv2d \<lparr>shape = [2], data = [1, 2]\<rparr> (Some \<lparr>shape = [1], data = [3]\<rparr>),
                     Module ''ReLU'' [] []],
         loc = Module ''ModuleList'' [] [],
         conf = Conv2d \<lparr>shape = [1], data = [4]\<rparr> (Some \<lparr>shape = [2], data = [8, 9]\<rparr>)\<rparr>"
  let ?xu = "\<lambda>(g::nat) sh. (replicate (prod_list sh) (real g), Suc g)"
  have h: "list_all has_bias (head_convs ?net)"
    by (simp add: head_convs_def has_bias_def)
  from weights_init_heads [OF h, of ?xu 10]
  have "\<exists>net' g'. initialize_weights ?xu ?net 10 = Inr (net', g')" by blast
  moreover have "initialize_weights ?xu ?net 10
     = Inr (\<lparr>vgg = Conv2d \<lparr>shape = [1], data = [5]\<rparr> (Some \<lparr>shape = [1], data = [7]\<rparr>),
         extras = Module ''ModuleList'' []
                    [Conv2d \<lparr>shape = [2], data = [10, 10]\<rparr> (Some \<lparr>shape = [1], data = [0]\<rparr>),
                     Module ''ReLU'' [] []],
         loc = Module ''ModuleList'' [] [],
         conf = Conv2d \<lparr>shape = [1], data = [11]\<rparr> (Some \<lparr>shape = [2], data = [0, 0]\<rparr>)\<rparr>, 12)"
    by (simp add: initialize_weights_def xavier_def zero_inplace_def numeral_2_eq_2)
  ultimately show ?thesis using h by simp
qed


end
